theory Spec2Isabelle
  imports Complex_Main "HOL-Library.Char_ord" "HOL-Library.List_Lexorder" "HOL-Library.Multiset"
    "HOL-Library.AList"
begin

section \<open>The BMI tracker of BMI.py\<close>

text \<open>
  A shallow embedding of \<^verbatim>\<open>src/BMI.py\<close>: the two pure functions
  \<^verbatim>\<open>calculate_bmi\<close> and \<^verbatim>\<open>bmi_category\<close>, the class \<^verbatim>\<open>DB\<close> over its two
  SQLite tables, and the handlers of \<^verbatim>\<open>BMIApp\<close> that read and write the database.

  Conventions of the model.
  \<^item> Python floats are idealised as real numbers: arithmetic is exact, and the floats
    \<^verbatim>\<open>inf\<close> and \<^verbatim>\<open>nan\<close> have no counterpart.
  \<^item> Python integers (row ids) are \<open>int\<close>; \<^verbatim>\<open>None\<close> is \<open>None\<close> of an option type.
  \<^item> An exception is a value \<open>Inl e\<close> of a sum type; division raises
    \<^verbatim>\<open>ZeroDivisionError\<close> on a zero divisor.
  \<^item> Strings are lists of characters; the text columns of SQLite compare byte by byte
    (the default collation \<^verbatim>\<open>BINARY\<close>), which is the lexicographic order on strings.
  \<^item> A table is the list of its rows in insertion order, with the counter that
    \<^verbatim>\<open>AUTOINCREMENT\<close> keeps for it.
  \<^item> What the user does at the window (the answer to a dialog, the line picked in a list box)
    and what the clock shows are arguments of the handler that reads them.
\<close>

subsection \<open>Errors and numbers\<close>

datatype py_error = ValueError string | ZeroDivisionError | IntegrityError string

text \<open>\<^verbatim>\<open>str(e)\<close> of an exception.\<close>

fun str_of_error :: "py_error \<Rightarrow> string" where
  "str_of_error (ValueError m) = m"
| "str_of_error ZeroDivisionError = ''float division by zero''"
| "str_of_error (IntegrityError m) = m"

text \<open>The operator \<^verbatim>\<open>/\<close> on floats.\<close>

definition py_truediv :: "real \<Rightarrow> real \<Rightarrow> py_error + real" where
  "py_truediv a b = (if b = 0 then Inl ZeroDivisionError else Inr (a / b))"

text \<open>
  \<^verbatim>\<open>round(x, 2)\<close>: the nearest multiple of one hundredth, a tie going to the even
  neighbour (Python 3 rounds half to even).
\<close>

definition round2 :: "real \<Rightarrow> real" where
  "round2 x =
     (let y = x * 100; f = \<lfloor>y\<rfloor>; d = y - of_int f
      in of_int (if d < 1 / 2 then f else if 1 / 2 < d then f + 1
                 else if even f then f else f + 1) / 100)"

subsection \<open>BMI utilities\<close>

text \<open>
  \<^verbatim>\<open>
  def calculate_bmi(weight, height, unit='metric'):
      if unit == 'metric':
          if height <= 0:
              raise ValueError('Height must be positive')
          h_m = height / 100.0
          bmi = weight / (h_m * h_m)
      else:
          bmi = 703.0 * weight / (height * height)
      return round(bmi, 2)
  \<close>
  Every caller in the file passes the unit, so the default value is not modelled.
\<close>

definition calculate_bmi :: "real \<Rightarrow> real \<Rightarrow> string \<Rightarrow> py_error + real" where
  "calculate_bmi weight height unit =
     (if unit = ''metric'' then
        if height \<le> 0 then Inl (ValueError ''Height must be positive'')
        else
          (let h_m = height / 100 in
           case py_truediv weight (h_m * h_m) of
             Inl e \<Rightarrow> Inl e
           | Inr bmi \<Rightarrow> Inr (round2 bmi))
      else
        (case py_truediv (703 * weight) (height * height) of
           Inl e \<Rightarrow> Inl e
         | Inr bmi \<Rightarrow> Inr (round2 bmi)))"

definition bmi_category :: "real \<Rightarrow> string" where
  "bmi_category bmi =
     (if bmi < 18.5 then ''Underweight''
      else if bmi < 25.0 then ''Normal''
      else if bmi < 30.0 then ''Overweight''
      else ''Obese'')"

subsection \<open>Database utilities\<close>

text \<open>
  The rows of the tables \<^verbatim>\<open>users\<close> and \<^verbatim>\<open>readings\<close> created by
  \<^verbatim>\<open>ensure_tables\<close>. The columns declared \<^verbatim>\<open>NOT NULL\<close> have a plain type, the
  nullable ones an option type.
\<close>

record user =
  u_id :: int
  u_name :: string
  u_dob :: "string option"

record reading =
  r_id :: int
  r_user_id :: int
  r_timestamp :: string
  r_weight :: real
  r_height :: real
  r_unit :: string
  r_bmi :: real
  r_category :: string
  r_notes :: "string option"

text \<open>
  The database file: both tables, and for each the largest row id it has ever held
  (the table \<^verbatim>\<open>sqlite_sequence\<close> behind \<^verbatim>\<open>AUTOINCREMENT\<close>). A new row gets that
  number plus one.
\<close>

record db =
  users :: "user list"
  readings :: "reading list"
  users_seq :: int
  readings_seq :: int

definition empty_db :: db where
  "empty_db = \<lparr>users = [], readings = [], users_seq = 0, readings_seq = 0\<rparr>"

definition user_ids :: "db \<Rightarrow> int list" where
  "user_ids d = map u_id (users d)"

text \<open>
  \<^verbatim>\<open>
  def add_user(self, name, dob=None):
      c = self.conn.cursor()
      try:
          c.execute('INSERT INTO users (name, dob) VALUES (?, ?)', (name, dob))
          self.conn.commit()
          return c.lastrowid
      except sqlite3.IntegrityError:
          return None
  \<close>
  The column is \<^verbatim>\<open>name TEXT UNIQUE NOT NULL\<close> with no collation, so the insert fails
  when a row holds the same string, compared byte by byte.
\<close>

definition add_user :: "db \<Rightarrow> string \<Rightarrow> string option \<Rightarrow> db \<times> int option" where
  "add_user d name dob =
     (if name \<in> set (map u_name (users d)) then (d, None)
      else
        (let i = users_seq d + 1
         in (d\<lparr>users := users d @ [\<lparr>u_id = i, u_name = name, u_dob = dob\<rparr>], users_seq := i\<rparr>,
             Some i)))"

definition get_user :: "db \<Rightarrow> int \<Rightarrow> user option" where
  "get_user d i = find (\<lambda>u. u_id u = i) (users d)"

text \<open>
  \<^verbatim>\<open>
  def save_reading(self, user_id, weight, height, unit, bmi, category, notes=None):
      c = self.conn.cursor()
      ts = datetime.utcnow().isoformat()
      c.execute('''INSERT INTO readings (user_id, timestamp, weight, height, unit, bmi, category, notes)
                   VALUES (?, ?, ?, ?, ?, ?, ?, ?)''',
                (user_id, ts, weight, height, unit, bmi, category, notes))
      self.conn.commit()
      return c.lastrowid
  \<close>
  The argument \<open>ts\<close> is what \<^verbatim>\<open>datetime.utcnow().isoformat()\<close> returns at the call. The
  caller \<^verbatim>\<open>save_action\<close> can pass \<^verbatim>\<open>None\<close> for \<^verbatim>\<open>user_id\<close>, which the
  column's \<^verbatim>\<open>NOT NULL\<close> refuses. The file never switches on
  \<^verbatim>\<open>PRAGMA foreign_keys\<close>, and SQLite does not check a \<^verbatim>\<open>FOREIGN KEY\<close> clause
  without it: the insert looks at no row of \<^verbatim>\<open>users\<close>.
\<close>

definition save_reading ::
  "db \<Rightarrow> string \<Rightarrow> int option \<Rightarrow> real \<Rightarrow> real \<Rightarrow> string \<Rightarrow> real \<Rightarrow> string \<Rightarrow> string option
     \<Rightarrow> py_error + (db \<times> int)" where
  "save_reading d ts user_id weight height unit bmi category notes =
     (case user_id of
        None \<Rightarrow> Inl (IntegrityError ''NOT NULL constraint failed: readings.user_id'')
      | Some u \<Rightarrow>
          (let i = readings_seq d + 1
           in Inr (d\<lparr>readings := readings d @
                       [\<lparr>r_id = i, r_user_id = u, r_timestamp = ts, r_weight = weight,
                         r_height = height, r_unit = unit, r_bmi = bmi, r_category = category,
                         r_notes = notes\<rparr>],
                     readings_seq := i\<rparr>, i)))"

text \<open>
  \<^verbatim>\<open>
  def get_readings(self, user_id):
      c = self.conn.cursor()
      c.execute('SELECT id, timestamp, weight, height, unit, bmi, category, notes FROM readings
                 WHERE user_id=? ORDER BY timestamp', (user_id,))
      return c.fetchall()
  \<close>
  The query names one sort key. SQL leaves open in which order it returns two rows whose
  \<^verbatim>\<open>ORDER BY\<close> expressions are equal, so the query is modelled by the results it admits:
  \<open>get_readings d u rs\<close> holds when \<open>rs\<close> holds each row of user \<open>u\<close> once and the
  timestamps never decrease along it. (The result rows lack the column
  \<^verbatim>\<open>user_id\<close>; the model keeps the whole row.)
\<close>

definition readings_of :: "db \<Rightarrow> int \<Rightarrow> reading list" where
  "readings_of d u = filter (\<lambda>r. r_user_id r = u) (readings d)"

definition get_readings :: "db \<Rightarrow> int \<Rightarrow> reading list \<Rightarrow> bool" where
  "get_readings d u rs =
     (mset rs = mset (readings_of d u) \<and>
      sorted_wrt (\<lambda>a b. r_timestamp a \<le> r_timestamp b) rs)"



definition orphans :: "db \<Rightarrow> reading list" where
  "orphans d = filter (\<lambda>r. r_user_id r \<notin> set (user_ids d)) (readings d)"

subsection \<open>The application\<close>

text \<open>
  \<^verbatim>\<open>str.strip()\<close>, on ASCII text: the characters for which \<^verbatim>\<open>str.isspace\<close> holds
  are tab, line feed, vertical tab, form feed, carriage return, the four separators
  \<^verbatim>\<open>0x1c\<close> to \<^verbatim>\<open>0x1f\<close>, and the space.
\<close>

definition isspace :: "char \<Rightarrow> bool" where
  "isspace c =
     (c \<in> set [CHR 0x09, CHR 0x0A, CHR 0x0B, CHR 0x0C, CHR 0x0D,
                CHR 0x1C, CHR 0x1D, CHR 0x1E, CHR 0x1F, CHR 0x20])"

definition strip :: "string \<Rightarrow> string" where
  "strip s = rev (dropWhile isspace (rev (dropWhile isspace s)))"

text \<open>
  The state of the window that the handlers read and write. An entry for a number is
  kept as what \<^verbatim>\<open>float()\<close> makes of its text: \<open>None\<close> when \<^verbatim>\<open>float()\<close> raises.
  \<open>last_calculation\<close> is the attribute \<^verbatim>\<open>_last_calculation\<close>, \<open>None\<close> until
  \<^verbatim>\<open>show_result\<close> sets it. \<open>users_map\<close> is the dictionary from the names in the list
  box to the ids, kept as the list of its items.
\<close>

record app =
  db :: db
  selected_user_id :: "int option"
  users_map :: "(string \<times> int) list"
  weight_var :: "real option"
  height_var :: "real option"
  unit_mode :: string
  notes_var :: string
  last_calculation :: "(real \<times> string) option"

text \<open>What a handler shows: nothing, a message box, or the result panel.\<close>

datatype feedback =
  Silent
  | Showwarning string string
  | Showerror string string
  | Saved int
  | Result real string

text \<open>
  \<^verbatim>\<open>
  def refresh_user_list(self):
      users = self.db.list_users()
      self.users_map = {}
      for u in users:
          uid, name, dob = u
          self.users_map[f"{name}"] = uid
  \<close>
  \<^verbatim>\<open>list_users\<close> returns every row of \<^verbatim>\<open>users\<close>, sorted by name. The loop here
  runs over the rows in table order: a later row with the same name would overwrite an
  earlier one in either order, and the table holds no two rows with one name.
\<close>

definition refresh_user_list :: "app \<Rightarrow> app" where
  "refresh_user_list s =
     s\<lparr>users_map := fold (\<lambda>u m. AList.update (u_name u) (u_id u) m) (users (db s)) []\<rparr>"

text \<open>
  \<^verbatim>\<open>BMIApp.__init__\<close> on a database file: no user selected, the entries empty, the unit
  \<^verbatim>\<open>'metric'\<close>, the list box filled.
\<close>

definition init_app :: "db \<Rightarrow> app" where
  "init_app d =
     refresh_user_list
       \<lparr>db = d, selected_user_id = None, users_map = [], weight_var = None,
        height_var = None, unit_mode = ''metric'', notes_var = [], last_calculation = None\<rparr>"

text \<open>\<^verbatim>\<open>not self.selected_user_id\<close>: true of \<^verbatim>\<open>None\<close> and of \<^verbatim>\<open>0\<close>.\<close>

definition no_selection :: "app \<Rightarrow> bool" where
  "no_selection s = (case selected_user_id s of None \<Rightarrow> True | Some i \<Rightarrow> i = 0)"

text \<open>
  \<^verbatim>\<open>
  def on_user_select(self, event=None):
      sel = self.user_listbox.curselection()
      if not sel:
          return
      display = self.user_listbox.get(sel[0])
      self.selected_user_id = self.users_map.get(display)
  \<close>
  The argument is the line picked in the list box, \<open>None\<close> when none is.
\<close>

definition on_user_select :: "app \<Rightarrow> string option \<Rightarrow> app" where
  "on_user_select s sel =
     (case sel of
        None \<Rightarrow> s
      | Some display \<Rightarrow> s\<lparr>selected_user_id := map_of (users_map s) display\<rparr>)"

text \<open>
  \<^verbatim>\<open>
  def add_user_dialog(self):
      name = simpledialog.askstring('Add User', 'Full name:')
      if not name:
          return
      dob = simpledialog.askstring('Optional: DOB', ...)
      uid = self.db.add_user(name.strip(), dob)
      if uid is None:
          messagebox.showwarning('Add User', 'User already exists or invalid name')
      else:
          self.refresh_user_list()
  \<close>
\<close>

definition add_user_dialog :: "app \<Rightarrow> string option \<Rightarrow> string option \<Rightarrow> app \<times> feedback" where
  "add_user_dialog s name dob =
     (case name of
        None \<Rightarrow> (s, Silent)
      | Some n \<Rightarrow>
          if n = [] then (s, Silent)
          else
            (case add_user (db s) (strip n) dob of
               (d, None) \<Rightarrow>
                 (s\<lparr>db := d\<rparr>, Showwarning ''Add User'' ''User already exists or invalid name'')
             | (d, Some uid) \<Rightarrow> (refresh_user_list (s\<lparr>db := d\<rparr>), Silent)))"

text \<open>
  The statement \<^verbatim>\<open>UPDATE users SET name=? WHERE id=?\<close> of \<^verbatim>\<open>rename_user_dialog\<close>:
  refused when another row holds the new name.
\<close>

definition update_user_name :: "db \<Rightarrow> string \<Rightarrow> int \<Rightarrow> py_error + db" where
  "update_user_name d newname i =
     (if i \<in> set (user_ids d) \<and>
         newname \<in> set (map u_name (filter (\<lambda>u. u_id u \<noteq> i) (users d)))
      then Inl (IntegrityError ''UNIQUE constraint failed: users.name'')
      else Inr (d\<lparr>users :=
                   map (\<lambda>u. if u_id u = i then u\<lparr>u_name := newname\<rparr> else u) (users d)\<rparr>))"

text \<open>
  \<^verbatim>\<open>
  def rename_user_dialog(self):
      if not self.selected_user_id:
          messagebox.showwarning('Rename', 'Select a user first')
          return
      user = self.db.get_user(self.selected_user_id)
      if not user:
          return
      newname = simpledialog.askstring('Rename User', 'New full name:', initialvalue=user[1])
      if not newname:
          return
      c = self.db.conn.cursor()
      try:
          c.execute('UPDATE users SET name=? WHERE id=?', (newname.strip(), self.selected_user_id))
          self.db.conn.commit()
          self.refresh_user_list()
      except Exception as e:
          messagebox.showerror('Rename', f'Failed to rename: {e}')
  \<close>
\<close>

definition rename_user_dialog :: "app \<Rightarrow> string option \<Rightarrow> app \<times> feedback" where
  "rename_user_dialog s newname =
     (case selected_user_id s of
        None \<Rightarrow> (s, Showwarning ''Rename'' ''Select a user first'')
      | Some i \<Rightarrow>
          if i = 0 then (s, Showwarning ''Rename'' ''Select a user first'')
          else
            (case get_user (db s) i of
               None \<Rightarrow> (s, Silent)
             | Some user \<Rightarrow>
                 (case newname of
                    None \<Rightarrow> (s, Silent)
                  | Some n \<Rightarrow>
                      if n = [] then (s, Silent)
                      else
                        (case update_user_name (db s) (strip n) i of
                           Inl e \<Rightarrow>
                             (s, Showerror ''Rename'' (''Failed to rename: '' @ str_of_error e))
                         | Inr d \<Rightarrow> (refresh_user_list (s\<lparr>db := d\<rparr>), Silent)))))"

text \<open>
  \<^verbatim>\<open>
  def delete_user(self):
      if not self.selected_user_id:
          messagebox.showwarning('Delete', 'Select a user first')
          return
      if not messagebox.askyesno('Delete User', 'Delete user and their history? ...'):
          return
      c = self.db.conn.cursor()
      c.execute('DELETE FROM readings WHERE user_id=?', (self.selected_user_id,))
      c.execute('DELETE FROM users WHERE id=?', (self.selected_user_id,))
      self.db.conn.commit()
      self.selected_user_id = None
      self.refresh_user_list()
      ...
  \<close>
  The argument is the answer to the question. Both statements run before the one commit;
  the method returns nothing on every path.
\<close>

definition delete_user :: "app \<Rightarrow> bool \<Rightarrow> app \<times> feedback" where
  "delete_user s yes =
     (case selected_user_id s of
        None \<Rightarrow> (s, Showwarning ''Delete'' ''Select a user first'')
      | Some i \<Rightarrow>
          if i = 0 then (s, Showwarning ''Delete'' ''Select a user first'')
          else if \<not> yes then (s, Silent)
          else
            (let d = db s;
                 d1 = d\<lparr>readings := filter (\<lambda>r. r_user_id r \<noteq> i) (readings d)\<rparr>;
                 d2 = d1\<lparr>users := filter (\<lambda>u. u_id u \<noteq> i) (users d1)\<rparr>
             in (refresh_user_list (s\<lparr>db := d2, selected_user_id := None\<rparr>), Silent)))"

text \<open>
  \<^verbatim>\<open>
  def parse_float(self, s, name):
      try:
          v = float(s)
      except Exception:
          raise ValueError(f'{name} must be a number')
      if not math.isfinite(v):
          raise ValueError(f'{name} must be a finite number')
      return v
  \<close>
  Every real number is finite, so the second check never fires in the model.
\<close>

definition isfinite :: "real \<Rightarrow> bool" where
  "isfinite v = True"

definition parse_float :: "real option \<Rightarrow> string \<Rightarrow> py_error + real" where
  "parse_float s name =
     (case s of
        None \<Rightarrow> Inl (ValueError (name @ '' must be a number''))
      | Some v \<Rightarrow>
          if \<not> isfinite v then Inl (ValueError (name @ '' must be a finite number''))
          else Inr v)"

text \<open>
  \<^verbatim>\<open>
  def validate_inputs(self):
      if not self.selected_user_id:
          raise ValueError('Select or add a user first')
      w = self.parse_float(self.weight_var.get(), 'Weight')
      h = self.parse_float(self.height_var.get(), 'Height')
      mode = self.unit_mode.get()
      if mode == 'metric':
          if not (20 <= w <= 500):
              raise ValueError('Weight (kg) must be between 20 and 500')
          if not (50 <= h <= 272):
              raise ValueError('Height (cm) must be between 50 and 272')
      else:
          if not (44 <= w <= 1100):
              raise ValueError('Weight (lb) must be between 44 and 1100')
          if not (20 <= h <= 107):
              raise ValueError('Height (in) must be between 20 and 107')
      return w, h, mode
  \<close>
\<close>

definition validate_inputs :: "app \<Rightarrow> py_error + (real \<times> real \<times> string)" where
  "validate_inputs s =
     (if no_selection s then Inl (ValueError ''Select or add a user first'')
      else
        (case parse_float (weight_var s) ''Weight'' of
           Inl e \<Rightarrow> Inl e
         | Inr w \<Rightarrow>
             (case parse_float (height_var s) ''Height'' of
                Inl e \<Rightarrow> Inl e
              | Inr h \<Rightarrow>
                  (let mode = unit_mode s
                   in if mode = ''metric'' then
                        if \<not> (20 \<le> w \<and> w \<le> 500)
                        then Inl (ValueError ''Weight (kg) must be between 20 and 500'')
                        else if \<not> (50 \<le> h \<and> h \<le> 272)
                        then Inl (ValueError ''Height (cm) must be between 50 and 272'')
                        else Inr (w, h, mode)
                      else
                        if \<not> (44 \<le> w \<and> w \<le> 1100)
                        then Inl (ValueError ''Weight (lb) must be between 44 and 1100'')
                        else if \<not> (20 \<le> h \<and> h \<le> 107)
                        then Inl (ValueError ''Height (in) must be between 20 and 107'')
                        else Inr (w, h, mode)))))"

text \<open>
  \<^verbatim>\<open>show_result\<close> writes the result panel and ends with
  \<^verbatim>\<open>self._last_calculation = (bmi, category)\<close>.
\<close>

definition show_result :: "app \<Rightarrow> real \<Rightarrow> string \<Rightarrow> app \<times> feedback" where
  "show_result s bmi category = (s\<lparr>last_calculation := Some (bmi, category)\<rparr>, Result bmi category)"

text \<open>
  \<^verbatim>\<open>
  def calculate_action(self):
      try:
          w, h, mode = self.validate_inputs()
      except ValueError as e:
          messagebox.showerror('Input error', str(e))
          return
      try:
          bmi = calculate_bmi(w, h, unit=mode)
      except Exception as e:
          messagebox.showerror('Calculation error', str(e))
          return
      cat = bmi_category(bmi)
      self.show_result(bmi, cat)
  \<close>
\<close>

definition calculate_action :: "app \<Rightarrow> app \<times> feedback" where
  "calculate_action s =
     (case validate_inputs s of
        Inl e \<Rightarrow> (s, Showerror ''Input error'' (str_of_error e))
      | Inr (w, h, mode) \<Rightarrow>
          (case calculate_bmi w h mode of
             Inl e \<Rightarrow> (s, Showerror ''Calculation error'' (str_of_error e))
           | Inr bmi \<Rightarrow> show_result s bmi (bmi_category bmi)))"

text \<open>
  \<^verbatim>\<open>
  def save_action(self):
      if not hasattr(self, '_last_calculation'):
          messagebox.showwarning('Save', 'Calculate BMI before saving')
          return
      bmi, category = self._last_calculation
      try:
          w = float(self.weight_var.get())
          h = float(self.height_var.get())
      except Exception:
          messagebox.showerror('Save error', 'Invalid current inputs')
          return
      mode = self.unit_mode.get()
      notes = self.notes_var.get().strip() or None
      try:
          rid = self.db.save_reading(self.selected_user_id, w, h, mode, bmi, category, notes)
          messagebox.showinfo('Saved', f'Reading saved (id {rid})')
          ...
      except Exception as e:
          messagebox.showerror('DB error', str(e))
  \<close>
  The argument \<open>ts\<close> is the clock's text at the call of \<^verbatim>\<open>save_reading\<close>.
\<close>

definition save_action :: "app \<Rightarrow> string \<Rightarrow> app \<times> feedback" where
  "save_action s ts =
     (case last_calculation s of
        None \<Rightarrow> (s, Showwarning ''Save'' ''Calculate BMI before saving'')
      | Some (bmi, category) \<Rightarrow>
          (case weight_var s of
             None \<Rightarrow> (s, Showerror ''Save error'' ''Invalid current inputs'')
           | Some w \<Rightarrow>
               (case height_var s of
                  None \<Rightarrow> (s, Showerror ''Save error'' ''Invalid current inputs'')
                | Some h \<Rightarrow>
                    (let mode = unit_mode s;
                         stripped = strip (notes_var s);
                         notes = (if stripped = [] then None else Some stripped)
                     in case save_reading (db s) ts (selected_user_id s) w h mode bmi category
                               notes of
                          Inl e \<Rightarrow> (s, Showerror ''DB error'' (str_of_error e))
                        | Inr (d, rid) \<Rightarrow> (s\<lparr>db := d\<rparr>, Saved rid)))))"

text \<open>
  \<^verbatim>\<open>
  def delete_selected_reading(self):
      sel = self.history_tree.selection()
      if not sel:
          messagebox.showwarning('Delete', 'Select a reading first')
          return
      if not messagebox.askyesno('Delete', 'Delete selected reading(s)?'):
          return
      c = self.db.conn.cursor()
      for iid in sel:
          try:
              c.execute('DELETE FROM readings WHERE id=?', (int(iid),))
          except Exception:
              pass
      self.db.conn.commit()
  \<close>
  The arguments are the ids of the lines picked in the history and the answer to the
  question.
\<close>

definition delete_selected_reading :: "app \<Rightarrow> int list \<Rightarrow> bool \<Rightarrow> app \<times> feedback" where
  "delete_selected_reading s sel yes =
     (if sel = [] then (s, Showwarning ''Delete'' ''Select a reading first'')
      else if \<not> yes then (s, Silent)
      else
        (s\<lparr>db := fold (\<lambda>iid d. d\<lparr>readings := filter (\<lambda>r. r_id r \<noteq> iid) (readings d)\<rparr>)
                    sel (db s)\<rparr>,
         Silent))"

text \<open>
  The statistics of \<^verbatim>\<open>refresh_chart\<close>:
  \<^verbatim>\<open>
  readings = self.db.get_readings(self.selected_user_id)
  if not readings:
      self.stats_label.config(text='No readings')
      return
  ...
  for rec in readings:
      ...
      bmis.append(bmi)
  try:
      mean_bmi = sum(bmis) / len(bmis)
      min_bmi = min(bmis)
      max_bmi = max(bmis)
      last_bmi = bmis[-1]
      stats = f'Mean: {mean_bmi:.2f}  Min: {min_bmi:.2f}  Max: {max_bmi:.2f}  Last: {last_bmi:.2f}'
  except Exception:
      stats = 'Unable to compute stats'
  \<close>
  The label is kept as the four numbers computed, before they are printed with two
  decimals. \<^verbatim>\<open>min\<close> and \<^verbatim>\<open>max\<close> run over the list from its first element.
\<close>

datatype stats_label =
  No_user_selected
  | No_readings
  | Stats real real real real
  | Unable_to_compute_stats

fun py_min :: "real list \<Rightarrow> py_error + real" where
  "py_min [] = Inl (ValueError ''min() arg is an empty sequence'')"
| "py_min (x # xs) = Inr (fold (\<lambda>y m. if y < m then y else m) xs x)"

fun py_max :: "real list \<Rightarrow> py_error + real" where
  "py_max [] = Inl (ValueError ''max() arg is an empty sequence'')"
| "py_max (x # xs) = Inr (fold (\<lambda>y m. if m < y then y else m) xs x)"

definition stats :: "real list \<Rightarrow> stats_label" where
  "stats bmis =
     (case py_truediv (sum_list bmis) (real (length bmis)) of
        Inl e \<Rightarrow> Unable_to_compute_stats
      | Inr mean_bmi \<Rightarrow>
          (case py_min bmis of
             Inl e \<Rightarrow> Unable_to_compute_stats
           | Inr min_bmi \<Rightarrow>
               (case py_max bmis of
                  Inl e \<Rightarrow> Unable_to_compute_stats
                | Inr max_bmi \<Rightarrow> Stats mean_bmi min_bmi max_bmi (last bmis))))"

text \<open>
  \<open>refresh_chart s rs\<close> is the label that \<^verbatim>\<open>refresh_chart\<close> sets when the query
  \<^verbatim>\<open>get_readings\<close> returns \<open>rs\<close>.
\<close>

definition refresh_chart :: "app \<Rightarrow> reading list \<Rightarrow> stats_label" where
  "refresh_chart s rs =
     (if no_selection s then No_user_selected
      else if rs = [] then No_readings
      else stats (map r_bmi rs))"

subsection \<open>Runs of the application\<close>

text \<open>
  What can happen at the window, one constructor for each handler that touches the state
  above and one for each entry the user can edit. \<open>Restart\<close> closes the window and opens
  it again on the same database file.
\<close>

datatype action =
  Add_user "string option" "string option"
  | Select_user "string option"
  | Rename_user "string option"
  | Delete_user bool
  | Set_weight "real option"
  | Set_height "real option"
  | Set_unit string
  | Set_notes string
  | Calculate
  | Save string
  | Delete_selected "int list" bool
  | Restart

fun step :: "app \<Rightarrow> action \<Rightarrow> app" where
  "step s (Add_user name dob) = fst (add_user_dialog s name dob)"
| "step s (Select_user sel) = on_user_select s sel"
| "step s (Rename_user newname) = fst (rename_user_dialog s newname)"
| "step s (Delete_user yes) = fst (delete_user s yes)"
| "step s (Set_weight w) = s\<lparr>weight_var := w\<rparr>"
| "step s (Set_height h) = s\<lparr>height_var := h\<rparr>"
| "step s (Set_unit m) = s\<lparr>unit_mode := m\<rparr>"
| "step s (Set_notes n) = s\<lparr>notes_var := n\<rparr>"
| "step s Calculate = fst (calculate_action s)"
| "step s (Save ts) = fst (save_action s ts)"
| "step s (Delete_selected sel yes) = fst (delete_selected_reading s sel yes)"
| "step s Restart = init_app (db s)"

definition run :: "app \<Rightarrow> action list \<Rightarrow> app" where
  "run s acts = fold (\<lambda>a t. step t a) acts s"

subsection \<open>Well-formed states\<close>

text \<open>
  What the two \<^verbatim>\<open>PRIMARY KEY AUTOINCREMENT\<close> columns and the \<^verbatim>\<open>UNIQUE\<close> column
  guarantee of a database file: the counters start at zero, ids are positive, distinct and
  at most the table's counter, and no two users have one name.
\<close>

definition wf_db :: "db \<Rightarrow> bool" where
  "wf_db d =
     (0 \<le> users_seq d \<and> 0 \<le> readings_seq d \<and>
      distinct (map u_id (users d)) \<and> distinct (map u_name (users d)) \<and>
      list_all (\<lambda>u. 0 < u_id u \<and> u_id u \<le> users_seq d) (users d) \<and>
      distinct (map r_id (readings d)) \<and>
      list_all (\<lambda>r. 0 < r_id r \<and> r_id r \<le> readings_seq d) (readings d))"

text \<open>
  Referential integrity, and what the window adds to it: the selected user and every id in
  the dictionary of the list box are ids of rows of \<^verbatim>\<open>users\<close>.
\<close>

definition app_inv :: "app \<Rightarrow> bool" where
  "app_inv s =
     (wf_db (db s) \<and> orphans (db s) = [] \<and>
      (case selected_user_id s of None \<Rightarrow> True | Some i \<Rightarrow> i \<in> set (user_ids (db s))) \<and>
      list_all (\<lambda>(n, i). i \<in> set (user_ids (db s))) (users_map s))"

subsection \<open>Example runs\<close>

text \<open>
  On an empty database a user is added and selected, and 70 kg and 175 cm are entered.
\<close>

definition entered :: app where
  "entered =
     run (init_app empty_db)
       [Add_user (Some ''Alice'') None, Select_user (Some ''Alice''),
        Set_weight (Some 70), Set_height (Some 175)]"

text \<open>
  Then the BMI is calculated and the reading is saved twice, at the clock texts \<open>ts1\<close>
  and \<open>ts2\<close>.
\<close>

definition two_saves :: "string \<Rightarrow> string \<Rightarrow> app" where
  "two_saves ts1 ts2 = run entered [Calculate, Save ts1, Save ts2]"

definition saved_reading :: "int \<Rightarrow> string \<Rightarrow> reading" where
  "saved_reading i ts =
     \<lparr>r_id = i, r_user_id = 1, r_timestamp = ts, r_weight = 70, r_height = 175,
      r_unit = ''metric'', r_bmi = 2286 / 100, r_category = ''Normal'', r_notes = None\<rparr>"

text \<open>
  The same start, but the weight entry is changed to 100 after the calculation and
  before the one save.
\<close>

definition stale_save :: "string \<Rightarrow> app" where
  "stale_save ts = run entered [Calculate, Set_weight (Some 100), Save ts]"

section \<open>Properties\<close>

subsection \<open>The example runs\<close>

lemmas handler_defs =
  entered_def run_def init_app_def refresh_user_list_def add_user_dialog_def add_user_def strip_def
  isspace_def on_user_select_def calculate_action_def validate_inputs_def no_selection_def
  parse_float_def isfinite_def calculate_bmi_def py_truediv_def round2_def show_result_def
  save_action_def save_reading_def empty_db_def bmi_category_def Let_def

lemma two_saves_db:
  "db (two_saves a b) =
     \<lparr>users = [\<lparr>u_id = 1, u_name = ''Alice'', u_dob = None\<rparr>],
      readings = [saved_reading 1 a, saved_reading 2 b],
      users_seq = 1, readings_seq = 2\<rparr>"
  by (simp add: two_saves_def saved_reading_def handler_defs)

lemma two_saves_selected: "selected_user_id (two_saves a b) = Some 1"
  by (simp add: two_saves_def handler_defs)

subsection \<open>Rounding and the BMI formulas\<close>





text \<open>
  Claim C3. \<open>bmi_category\<close> returns \<^verbatim>\<open>'Underweight'\<close> exactly below 18.5,
  \<^verbatim>\<open>'Normal'\<close> exactly from 18.5 to below 25, \<^verbatim>\<open>'Overweight'\<close> exactly from 25 to
  below 30 and \<^verbatim>\<open>'Obese'\<close> exactly from 30 on; each boundary value belongs to the
  higher band.
\<close>

theorem bmi_category_bands:
  "(bmi_category bmi = ''Underweight'') = (bmi < 18.5)
   \<and> (bmi_category bmi = ''Normal'') = (18.5 \<le> bmi \<and> bmi < 25.0)
   \<and> (bmi_category bmi = ''Overweight'') = (25.0 \<le> bmi \<and> bmi < 30.0)
   \<and> (bmi_category bmi = ''Obese'') = (30.0 \<le> bmi)
   \<and> bmi_category 18.5 = ''Normal''
   \<and> bmi_category 24.999 = ''Normal''
   \<and> bmi_category 25.0 = ''Overweight''
   \<and> bmi_category 30.0 = ''Obese''"
  by (simp add: bmi_category_def)






subsection \<open>Statistics of a history\<close>

lemma fold_less_min: "fold (\<lambda>y m. if y < m then y else m) xs (x::real) = Min (set (x # xs))"
proof -
  have "(\<lambda>y m. if y < m then y else m) = (min :: real \<Rightarrow> real \<Rightarrow> real)"
    by (intro ext) (simp add: min_def)
  then show ?thesis
    by (simp only: Min.set_eq_fold [symmetric])
qed

lemma fold_less_max: "fold (\<lambda>y m. if m < y then y else m) xs (x::real) = Max (set (x # xs))"
proof -
  have "(\<lambda>y m. if m < y then y else m) = (max :: real \<Rightarrow> real \<Rightarrow> real)"
    by (intro ext) (simp add: max_def)
  then show ?thesis
    by (simp only: Max.set_eq_fold [symmetric])
qed

lemma stats_nonempty:
  assumes "bmis \<noteq> []"
  shows "stats bmis =
    Stats (sum_list bmis / real (length bmis)) (Min (set bmis)) (Max (set bmis)) (last bmis)"
proof -
  obtain x xs where b: "bmis = x # xs"
    using assms by (cases bmis) auto
  have l: "real (length bmis) \<noteq> 0"
    using assms by simp
  show ?thesis
    unfolding stats_def py_truediv_def
    using l by (simp add: b fold_less_min fold_less_max del: fold_simps)
qed

lemma sorted_wrt_last_greatest:
  "sorted_wrt (\<lambda>a b. f a \<le> (f b :: 'k :: linorder)) rs \<Longrightarrow> r \<in> set rs \<Longrightarrow> f r \<le> f (last rs)"
proof (induction rs)
  case Nil
  then show ?case by simp
next
  case (Cons x xs)
  show ?case
  proof (cases "xs = []")
    case True
    with Cons.prems show ?thesis by simp
  next
    case False
    then have l: "last xs \<in> set xs" by simp
    from Cons.prems Cons.IH l False show ?thesis by auto
  qed
qed

text \<open>
  Claim C7. With a user selected, the statistics of an empty history are the label
  \<^verbatim>\<open>'No readings'\<close>, not numbers; those of a history that is not empty are the
  arithmetic mean, the least and the greatest of its bmi values, and the bmi of its last
  element, which on a result of \<open>get_readings\<close> has the greatest timestamp.
\<close>

theorem refresh_chart_stats:
  assumes "\<not> no_selection s"
  shows "refresh_chart s [] = No_readings
       \<and> (rs \<noteq> [] \<longrightarrow>
            refresh_chart s rs =
              Stats (sum_list (map r_bmi rs) / real (length rs))
                    (Min (r_bmi ` set rs)) (Max (r_bmi ` set rs)) (r_bmi (last rs)))
       \<and> (get_readings d u rs \<longrightarrow> (\<forall>r \<in> set rs. r_timestamp r \<le> r_timestamp (last rs)))"
proof -
  have a: "refresh_chart s [] = No_readings"
    using assms by (simp add: refresh_chart_def)
  have b: "refresh_chart s rs =
              Stats (sum_list (map r_bmi rs) / real (length rs))
                    (Min (r_bmi ` set rs)) (Max (r_bmi ` set rs)) (r_bmi (last rs))"
    if "rs \<noteq> []"
    using assms that stats_nonempty [of "map r_bmi rs"]
    by (simp add: refresh_chart_def last_map)
  have c: "\<forall>r \<in> set rs. r_timestamp r \<le> r_timestamp (last rs)" if "get_readings d u rs"
    using that sorted_wrt_last_greatest [of r_timestamp rs]
    by (auto simp: get_readings_def)
  show ?thesis
    using a b c by blast
qed

text \<open>The history with the bmi values 20, 25 and 30 has mean 25, least 20, greatest 30, last 30.\<close>

theorem refresh_chart_stats_witness:
  "\<not> no_selection (two_saves ''2024-01-01T12:00:00.000001'' ''2024-01-02T12:00:00.000001'')
   \<and> refresh_chart (two_saves ''2024-01-01T12:00:00.000001'' ''2024-01-02T12:00:00.000001'') []
       = No_readings
   \<and> refresh_chart (two_saves ''2024-01-01T12:00:00.000001'' ''2024-01-02T12:00:00.000001'')
         [(saved_reading 1 ''2024-01-01T12:00:00.000001'')\<lparr>r_bmi := 20\<rparr>,
          (saved_reading 2 ''2024-01-02T12:00:00.000001'')\<lparr>r_bmi := 25\<rparr>,
          (saved_reading 3 ''2024-01-03T12:00:00.000001'')\<lparr>r_bmi := 30\<rparr>]
       = Stats 25 20 30 30"
proof -
  let ?s = "two_saves ''2024-01-01T12:00:00.000001'' ''2024-01-02T12:00:00.000001''"
  let ?rs = "[(saved_reading 1 ''2024-01-01T12:00:00.000001'')\<lparr>r_bmi := 20\<rparr>,
          (saved_reading 2 ''2024-01-02T12:00:00.000001'')\<lparr>r_bmi := 25\<rparr>,
          (saved_reading 3 ''2024-01-03T12:00:00.000001'')\<lparr>r_bmi := 30\<rparr>]"
  have sel: "\<not> no_selection ?s"
    by (simp add: no_selection_def two_saves_selected)
  note t = refresh_chart_stats [OF sel, of ?rs]
  have ne: "?rs \<noteq> []" by simp
  have "refresh_chart ?s ?rs = Stats 25 20 30 30"
    using t ne by (simp add: saved_reading_def)
  then show ?thesis
    using sel t by blast
qed

subsection \<open>The order of a history\<close>









subsection \<open>Well-formed states are kept\<close>

lemma no_orphans_iff:
  "(orphans d = []) = (\<forall>r \<in> set (readings d). r_user_id r \<in> set (user_ids d))"
  by (simp add: orphans_def filter_empty_conv)

lemma update_values: "snd ` set (AList.update k v al) \<subseteq> insert v (snd ` set al)"
  by (induction al) auto

lemma fold_update_values:
  "snd ` set (fold (\<lambda>u m. AList.update (u_name u) (u_id u) m) us m0)
     \<subseteq> u_id ` set us \<union> snd ` set m0"
proof (induction us arbitrary: m0)
  case Nil
  then show ?case by simp
next
  case (Cons u us)
  have "snd ` set (fold (\<lambda>u m. AList.update (u_name u) (u_id u) m) us
                     (AList.update (u_name u) (u_id u) m0))
        \<subseteq> u_id ` set us \<union> snd ` set (AList.update (u_name u) (u_id u) m0)"
    by (rule Cons.IH)
  also have "\<dots> \<subseteq> u_id ` set us \<union> insert (u_id u) (snd ` set m0)"
    using update_values [of "u_name u" "u_id u" m0] by blast
  finally show ?case by auto
qed

lemma refresh_user_list_fields [simp]:
  "db (refresh_user_list s) = db s"
  "selected_user_id (refresh_user_list s) = selected_user_id s"
  "weight_var (refresh_user_list s) = weight_var s"
  "height_var (refresh_user_list s) = height_var s"
  "unit_mode (refresh_user_list s) = unit_mode s"
  "notes_var (refresh_user_list s) = notes_var s"
  "last_calculation (refresh_user_list s) = last_calculation s"
  by (simp_all add: refresh_user_list_def)

lemma refresh_user_list_map:
  "list_all (\<lambda>(n, i). i \<in> set (user_ids (db s))) (users_map (refresh_user_list s))"
proof -
  have "snd ` set (users_map (refresh_user_list s)) \<subseteq> set (user_ids (db s))"
    using fold_update_values [of "users (db s)" "[]"]
    by (simp add: refresh_user_list_def user_ids_def)
  then show ?thesis
    by (auto simp: list_all_iff)
qed

lemma app_inv_refresh:
  assumes "wf_db (db s)" and "orphans (db s) = []"
    and "case selected_user_id s of None \<Rightarrow> True | Some i \<Rightarrow> i \<in> set (user_ids (db s))"
  shows "app_inv (refresh_user_list s)"
  using assms refresh_user_list_map [of s] by (simp add: app_inv_def split: option.splits)

lemma app_inv_init: "wf_db d \<Longrightarrow> orphans d = [] \<Longrightarrow> app_inv (init_app d)"
  unfolding init_app_def by (rule app_inv_refresh) simp_all

lemma wf_empty_db: "wf_db empty_db" "orphans empty_db = []"
  by (simp_all add: wf_db_def empty_db_def orphans_def)

text \<open>The handlers one by one.\<close>

lemma add_user_wf:
  assumes "wf_db d"
  shows "wf_db (fst (add_user d n dob))"
proof (cases "n \<in> set (map u_name (users d))")
  case True
  with assms show ?thesis by (simp add: add_user_def)
next
  case False
  have fresh: "users_seq d + 1 \<notin> u_id ` set (users d)"
    using assms by (auto simp: wf_db_def list_all_iff)
  show ?thesis
    using assms False fresh
    by (auto simp: add_user_def wf_db_def Let_def list_all_iff)
qed

lemma add_user_keeps:
  "set (user_ids d) \<subseteq> set (user_ids (fst (add_user d n dob)))"
  "readings (fst (add_user d n dob)) = readings d"
  by (auto simp: add_user_def user_ids_def Let_def)

lemma add_user_dialog_inv:
  assumes "app_inv s"
  shows "app_inv (fst (add_user_dialog s name dob))"
proof (cases name)
  case None
  with assms show ?thesis by (simp add: add_user_dialog_def)
next
  case (Some n)
  show ?thesis
  proof (cases "n = []")
    case True
    with assms Some show ?thesis by (simp add: add_user_dialog_def)
  next
    case False
    obtain d r where a: "add_user (db s) (strip n) dob = (d, r)"
      by (cases "add_user (db s) (strip n) dob")
    have d: "d = fst (add_user (db s) (strip n) dob)" using a by simp
    have wf: "wf_db d"
      unfolding d using assms by (intro add_user_wf) (simp add: app_inv_def)
    have ids: "set (user_ids (db s)) \<subseteq> set (user_ids d)"
      unfolding d by (rule add_user_keeps)
    have rd: "readings d = readings (db s)"
      unfolding d by (rule add_user_keeps)
    have orph: "orphans d = []"
      using assms ids rd by (auto simp: no_orphans_iff app_inv_def)
    have sel: "case selected_user_id s of None \<Rightarrow> True | Some i \<Rightarrow> i \<in> set (user_ids d)"
      using assms ids by (auto simp: app_inv_def split: option.splits)
    show ?thesis
    proof (cases r)
      case None
      then have "d = db s" using a by (auto simp: add_user_def Let_def split: if_splits)
      with assms Some False a None show ?thesis
        by (simp add: add_user_dialog_def)
    next
      case (Some uid)
      have "app_inv (refresh_user_list (s\<lparr>db := d\<rparr>))"
        using wf orph sel by (intro app_inv_refresh) (simp_all split: option.splits)
      with \<open>name = Some n\<close> False a Some show ?thesis
        by (simp add: add_user_dialog_def)
    qed
  qed
qed

lemma on_user_select_inv:
  assumes "app_inv s"
  shows "app_inv (on_user_select s sel)"
proof (cases sel)
  case None
  with assms show ?thesis by (simp add: on_user_select_def)
next
  case (Some display)
  have "i \<in> set (user_ids (db s))" if "map_of (users_map s) display = Some i" for i
  proof -
    have "(display, i) \<in> set (users_map s)" using that by (rule map_of_SomeD)
    with assms show ?thesis by (auto simp: app_inv_def list_all_iff)
  qed
  with assms Some show ?thesis
    by (auto simp: on_user_select_def app_inv_def split: option.splits)
qed


lemma rename_ids:
  "map u_id (map (\<lambda>u. if u_id u = i then u\<lparr>u_name := n\<rparr> else u) us) = map u_id us"
  by (induction us) auto

lemma rename_ids_comp:
  "map (u_id \<circ> (\<lambda>u. if u_id u = i then u\<lparr>u_name := n\<rparr> else u)) us = map u_id us"
  by (induction us) auto

lemma rename_names_distinct:
  assumes "distinct (map u_id us)" and "distinct (map u_name us)"
    and "n \<notin> u_name ` {u \<in> set us. u_id u \<noteq> i}"
  shows "distinct (map u_name (map (\<lambda>u. if u_id u = i then u\<lparr>u_name := n\<rparr> else u) us))"
  using assms
proof (induction us)
  case Nil
  then show ?case by simp
next
  case (Cons a us)
  let ?f = "\<lambda>u. if u_id u = i then u\<lparr>u_name := n\<rparr> else u"
  have ih: "distinct (map u_name (map ?f us))"
    using Cons by auto
  show ?case
  proof (cases "u_id a = i")
    case True
    have na: "u_id a \<notin> u_id ` set us"
      using Cons.prems(1) by simp
    have others: "\<forall>u \<in> set us. u_id u \<noteq> i"
    proof
      fix u
      assume "u \<in> set us"
      then have "u_id u \<in> u_id ` set us" by (rule imageI)
      with na True show "u_id u \<noteq> i" by metis
    qed
    then have same: "map ?f us = us"
      by (induction us) auto
    have "n \<notin> u_name ` set us"
      using Cons.prems(3) others by auto
    with True same Cons.prems(2) show ?thesis by simp
  next
    case False
    have an: "u_name a \<noteq> n"
      using Cons.prems(3) False by auto
    have hd: "map u_name (map ?f (a # us)) = u_name a # map u_name (map ?f us)"
      using False by simp
    have "u_name a \<notin> set (map u_name (map ?f us))"
    proof
      assume "u_name a \<in> set (map u_name (map ?f us))"
      then obtain u where u: "u \<in> set us" and e: "u_name a = u_name (?f u)"
        by auto
      show False
      proof (cases "u_id u = i")
        case True
        with e an show False by simp
      next
        case False
        with e have "u_name a = u_name u" by simp
        with u Cons.prems(2) show False by auto
      qed
    qed
    with ih show ?thesis
      unfolding hd by (simp only: distinct.simps simp_thms)
  qed
qed

lemma update_user_name_wf:
  assumes "wf_db d" and "update_user_name d n i = Inr d'"
  shows "wf_db d'" and "user_ids d' = user_ids d" and "readings d' = readings d"
proof -
  let ?f = "\<lambda>u. if u_id u = i then u\<lparr>u_name := n\<rparr> else u"
  have d': "d' = d\<lparr>users := map ?f (users d)\<rparr>"
    using assms(2) by (simp add: update_user_name_def split: if_splits)
  show ids: "user_ids d' = user_ids d"
    by (simp add: d' user_ids_def rename_ids)
  show "readings d' = readings d"
    by (simp add: d')
  have names: "distinct (map u_name (map ?f (users d)))"
  proof (cases "i \<in> set (user_ids d)")
    case True
    then have "n \<notin> u_name ` {u \<in> set (users d). u_id u \<noteq> i}"
      using assms(2) by (auto simp: update_user_name_def split: if_splits)
    with assms(1) show ?thesis
      by (intro rename_names_distinct) (simp_all add: wf_db_def)
  next
    case False
    then have "\<forall>u \<in> set (users d). u_id u \<noteq> i"
      by (auto simp: user_ids_def)
    then have "map ?f (users d) = users d"
      by (intro map_idI) auto
    with assms(1) show ?thesis by (simp add: wf_db_def)
  qed
  have bounds: "list_all (\<lambda>u. 0 < u_id u \<and> u_id u \<le> users_seq d) (map ?f (users d))"
    using assms(1) by (auto simp: wf_db_def list_all_iff)
  show "wf_db d'"
    using assms(1) names bounds
    by (simp add: d' wf_db_def rename_ids_comp)
qed

lemma rename_user_dialog_inv:
  assumes "app_inv s"
  shows "app_inv (fst (rename_user_dialog s newname))"
proof -
  have "app_inv (refresh_user_list (s\<lparr>db := d\<rparr>))"
    if "update_user_name (db s) n i = Inr d" for n i d
  proof -
    have wf: "wf_db (db s)" using assms by (simp add: app_inv_def)
    note u = update_user_name_wf [OF wf that]
    have "orphans d = []"
      using assms u by (simp add: no_orphans_iff app_inv_def)
    moreover have "case selected_user_id s of None \<Rightarrow> True | Some i \<Rightarrow> i \<in> set (user_ids d)"
      using assms u by (simp add: app_inv_def split: option.splits)
    ultimately show ?thesis
      using u(1) by (intro app_inv_refresh) (simp_all split: option.splits)
  qed
  with assms show ?thesis
    by (auto simp: rename_user_dialog_def split: option.splits sum.splits)
qed

lemma delete_user_inv:
  assumes "app_inv s"
  shows "app_inv (fst (delete_user s yes))"
proof (cases "selected_user_id s")
  case None
  with assms show ?thesis by (simp add: delete_user_def)
next
  case (Some i)
  show ?thesis
  proof (cases "i = 0 \<or> \<not> yes")
    case True
    with assms Some show ?thesis by (auto simp: delete_user_def)
  next
    case False
    define d2 where "d2 = (db s)\<lparr>readings := filter (\<lambda>r. r_user_id r \<noteq> i) (readings (db s)),
                                 users := filter (\<lambda>u. u_id u \<noteq> i) (users (db s))\<rparr>"
    have wf: "wf_db d2"
      using assms by (auto simp: d2_def app_inv_def wf_db_def distinct_map_filter list_all_iff)
    have orph: "orphans d2 = []"
      using assms by (auto simp: d2_def app_inv_def no_orphans_iff user_ids_def)
    have "app_inv (refresh_user_list (s\<lparr>db := d2, selected_user_id := None\<rparr>))"
      using wf orph by (intro app_inv_refresh) simp_all
    moreover have "fst (delete_user s yes) = refresh_user_list (s\<lparr>db := d2, selected_user_id := None\<rparr>)"
      using Some False by (simp add: delete_user_def d2_def Let_def)
    ultimately show ?thesis by simp
  qed
qed

lemma save_reading_inv:
  assumes "wf_db d" and "orphans d = []" and "u \<in> set (user_ids d)"
    and "save_reading d ts (Some u) w h m b c n = Inr (d', i)"
  shows "wf_db d'" and "orphans d' = []" and "user_ids d' = user_ids d"
proof -
  have fresh: "readings_seq d + 1 \<notin> r_id ` set (readings d)"
    using assms(1) by (auto simp: wf_db_def list_all_iff)
  have le: "\<forall>r \<in> set (readings d). r_id r \<le> readings_seq d + 1"
    using assms(1) by (fastforce simp: wf_db_def list_all_iff)
  show "wf_db d'"
    using assms(1,4) fresh le
    by (auto simp: save_reading_def wf_db_def Let_def list_all_iff)
  show "orphans d' = []"
    using assms(2,3,4) by (auto simp: save_reading_def no_orphans_iff user_ids_def Let_def)
  show "user_ids d' = user_ids d"
    using assms(4) by (auto simp: save_reading_def user_ids_def Let_def)
qed

lemma save_action_inv:
  assumes "app_inv s"
  shows "app_inv (fst (save_action s ts))"
proof -
  have "app_inv (s\<lparr>db := d\<rparr>)"
    if "save_reading (db s) ts (selected_user_id s) w h m b c n = Inr (d, i)" for w h m b c n d i
  proof -
    note sr = that
    obtain u where u: "selected_user_id s = Some u"
      using sr by (cases "selected_user_id s") (simp_all add: save_reading_def)
    have uin: "u \<in> set (user_ids (db s))"
      using assms u by (simp add: app_inv_def)
    have wf: "wf_db (db s)" and orph: "orphans (db s) = []"
      using assms by (simp_all add: app_inv_def)
    note r = save_reading_inv [OF wf orph uin sr [unfolded u]]
    show ?thesis
      using assms r by (simp add: app_inv_def split: option.splits)
  qed
  with assms show ?thesis
    by (auto simp: save_action_def Let_def split: option.splits sum.splits prod.splits)
qed

lemma delete_readings_fold:
  "users (fold (\<lambda>iid d. d\<lparr>readings := filter (\<lambda>r. r_id r \<noteq> iid) (readings d)\<rparr>) sel d) = users d
   \<and> users_seq (fold (\<lambda>iid d. d\<lparr>readings := filter (\<lambda>r. r_id r \<noteq> iid) (readings d)\<rparr>) sel d)
       = users_seq d
   \<and> readings_seq (fold (\<lambda>iid d. d\<lparr>readings := filter (\<lambda>r. r_id r \<noteq> iid) (readings d)\<rparr>) sel d)
       = readings_seq d
   \<and> readings (fold (\<lambda>iid d. d\<lparr>readings := filter (\<lambda>r. r_id r \<noteq> iid) (readings d)\<rparr>) sel d)
       = filter (\<lambda>r. r_id r \<notin> set sel) (readings d)"
proof (induction sel arbitrary: d)
  case Nil
  then show ?case by simp
next
  case (Cons a sel)
  show ?case
    by (simp add: Cons.IH conj_commute)
qed

lemma delete_selected_reading_inv:
  assumes "app_inv s"
  shows "app_inv (fst (delete_selected_reading s sel yes))"
proof -
  let ?d = "fold (\<lambda>iid d. d\<lparr>readings := filter (\<lambda>r. r_id r \<noteq> iid) (readings d)\<rparr>) sel (db s)"
  note f = delete_readings_fold [of sel "db s"]
  have wf: "wf_db ?d"
    using assms f by (auto simp: app_inv_def wf_db_def distinct_map_filter list_all_iff)
  have ids: "user_ids ?d = user_ids (db s)"
    using f by (simp add: user_ids_def)
  have orph: "orphans ?d = []"
    using assms f ids by (auto simp: app_inv_def no_orphans_iff)
  have "app_inv (s\<lparr>db := ?d\<rparr>)"
    using assms wf orph ids by (simp add: app_inv_def split: option.splits)
  with assms show ?thesis
    by (simp add: delete_selected_reading_def)
qed

lemma calculate_action_inv:
  assumes "app_inv s"
  shows "app_inv (fst (calculate_action s))"
  using assms
  by (auto simp: calculate_action_def show_result_def app_inv_def
      split: sum.splits prod.splits option.splits)

lemma step_inv:
  assumes "app_inv s"
  shows "app_inv (step s a)"
proof (cases a)
  case (Add_user name dob)
  with assms show ?thesis by (simp add: add_user_dialog_inv)
next
  case (Select_user sel)
  with assms show ?thesis by (simp add: on_user_select_inv)
next
  case (Rename_user newname)
  with assms show ?thesis by (simp add: rename_user_dialog_inv)
next
  case (Delete_user yes)
  with assms show ?thesis by (simp add: delete_user_inv)
next
  case (Set_weight w)
  with assms show ?thesis by (simp add: app_inv_def split: option.splits)
next
  case (Set_height h)
  with assms show ?thesis by (simp add: app_inv_def split: option.splits)
next
  case (Set_unit m)
  with assms show ?thesis by (simp add: app_inv_def split: option.splits)
next
  case (Set_notes n)
  with assms show ?thesis by (simp add: app_inv_def split: option.splits)
next
  case Calculate
  with assms show ?thesis by (simp add: calculate_action_inv)
next
  case (Save ts)
  with assms show ?thesis by (simp add: save_action_inv)
next
  case (Delete_selected sel yes)
  with assms show ?thesis by (simp add: delete_selected_reading_inv)
next
  case Restart
  from assms have "wf_db (db s)" and "orphans (db s) = []"
    by (simp_all add: app_inv_def)
  then show ?thesis
    by (simp add: Restart app_inv_init)
qed

lemma run_inv: "app_inv s \<Longrightarrow> app_inv (run s acts)"
  unfolding run_def
  by (induction acts arbitrary: s) (simp_all add: step_inv)

subsection \<open>Adding a user\<close>

text \<open>
  Claim C4, as amended. \<open>add_user\<close> returns \<^verbatim>\<open>None\<close> and leaves the database as it
  is exactly when a row of \<^verbatim>\<open>users\<close> holds the same name, character by character;
  otherwise it appends the user under an id that no row has and returns that id. The name
  is stripped by \<open>add_user_dialog\<close> before the call: the dialog warns exactly when the
  stripped name is the name of a row.
\<close>

theorem add_user_exact_name:
  "(snd (add_user d name dob) = None) = (name \<in> u_name ` set (users d))
   \<and> (name \<in> u_name ` set (users d) \<longrightarrow> fst (add_user d name dob) = d)
   \<and> (name \<notin> u_name ` set (users d) \<and> wf_db d \<longrightarrow>
        snd (add_user d name dob) = Some (users_seq d + 1)
        \<and> users_seq d + 1 \<notin> set (user_ids d)
        \<and> users (fst (add_user d name dob))
            = users d @ [\<lparr>u_id = users_seq d + 1, u_name = name, u_dob = dob\<rparr>]
        \<and> readings (fst (add_user d name dob)) = readings d
        \<and> wf_db (fst (add_user d name dob)))
   \<and> (n \<noteq> [] \<longrightarrow>
        (snd (add_user_dialog s (Some n) dob)
           = Showwarning ''Add User'' ''User already exists or invalid name'')
        = (strip n \<in> u_name ` set (users (db s))))"
proof -
  have a: "(snd (add_user d name dob) = None) = (name \<in> u_name ` set (users d))"
    by (simp add: add_user_def Let_def)
  have b: "fst (add_user d name dob) = d" if "name \<in> u_name ` set (users d)"
    using that by (simp add: add_user_def)
  have c: "snd (add_user d name dob) = Some (users_seq d + 1)
        \<and> users_seq d + 1 \<notin> set (user_ids d)
        \<and> users (fst (add_user d name dob))
            = users d @ [\<lparr>u_id = users_seq d + 1, u_name = name, u_dob = dob\<rparr>]
        \<and> readings (fst (add_user d name dob)) = readings d
        \<and> wf_db (fst (add_user d name dob))"
    if "name \<notin> u_name ` set (users d) \<and> wf_db d"
  proof -
    have fresh: "users_seq d + 1 \<notin> set (user_ids d)"
      using that by (auto simp: wf_db_def list_all_iff user_ids_def)
    have "wf_db (fst (add_user d name dob))"
      using that by (intro add_user_wf) simp
    with that fresh show ?thesis
      by (simp add: add_user_def Let_def)
  qed
  have e: "(snd (add_user_dialog s (Some n) dob)
           = Showwarning ''Add User'' ''User already exists or invalid name'')
        = (strip n \<in> u_name ` set (users (db s)))" if "n \<noteq> []"
    using that by (simp add: add_user_dialog_def add_user_def Let_def)
  show ?thesis
    using a b c e by blast
qed

theorem add_user_exact_name_witness:
  "snd (add_user (fst (add_user empty_db ''Alice'' None)) ''Alice'' None) = None
   \<and> fst (add_user (fst (add_user empty_db ''Alice'' None)) ''Alice'' None)
       = fst (add_user empty_db ''Alice'' None)
   \<and> wf_db (fst (add_user empty_db ''Alice'' None))
   \<and> snd (add_user (fst (add_user empty_db ''Alice'' None)) ''Bob'' (Some ''1990-05-17'')) = Some 2
   \<and> snd (add_user_dialog (init_app (fst (add_user empty_db ''Alice'' None)))
            (Some '' Alice  '') None)
       = Showwarning ''Add User'' ''User already exists or invalid name''"
proof -
  let ?d = "fst (add_user empty_db ''Alice'' None)"
  have d: "?d = \<lparr>users = [\<lparr>u_id = 1, u_name = ''Alice'', u_dob = None\<rparr>], readings = [],
                 users_seq = 1, readings_seq = 0\<rparr>"
    by (simp add: add_user_def empty_db_def)
  have wf: "wf_db ?d"
    unfolding d by (simp add: wf_db_def)
  have i: "''Alice'' \<in> u_name ` set (users ?d)"
    unfolding d by simp
  have o: "''Bob'' \<notin> u_name ` set (users ?d)"
    unfolding d by simp
  have st: "strip '' Alice  '' = ''Alice''"
    by (simp add: strip_def isspace_def)
  have ne: "'' Alice  '' \<noteq> []" by simp
  have sq: "users_seq ?d + 1 = 2"
    unfolding d by simp
  note t1 = add_user_exact_name [of ?d "''Alice''" None "'' Alice  ''" "init_app ?d"]
  note t2 = add_user_exact_name [of ?d "''Bob''" "Some ''1990-05-17''" "'' Alice  ''" "init_app ?d"]
  have w1: "snd (add_user ?d ''Alice'' None) = None"
    using t1 i by blast
  have w2: "fst (add_user ?d ''Alice'' None) = ?d"
    using t1 i by blast
  have w3: "snd (add_user ?d ''Bob'' (Some ''1990-05-17'')) = Some (users_seq ?d + 1)"
    using t2 o wf by blast
  have w4: "snd (add_user_dialog (init_app ?d) (Some '' Alice  '') None)
       = Showwarning ''Add User'' ''User already exists or invalid name''"
  proof -
    have "strip '' Alice  '' \<in> u_name ` set (users (db (init_app ?d)))"
      unfolding st using i by (simp add: init_app_def)
    with t1 ne show ?thesis by blast
  qed
  show ?thesis
    using w1 w2 wf w3 [unfolded sq] w4 by (intro conjI)
qed

text \<open>
  The claim as the specification states it fails: after \<^verbatim>\<open>add_user("Alice")\<close> the call
  \<^verbatim>\<open>add_user("alice")\<close> inserts a second user and returns the id 2, through the
  dialog as well.
\<close>

theorem add_user_case_counterexample:
  "add_user (fst (add_user empty_db ''Alice'' None)) ''alice'' None =
     (\<lparr>users = [\<lparr>u_id = 1, u_name = ''Alice'', u_dob = None\<rparr>,
                \<lparr>u_id = 2, u_name = ''alice'', u_dob = None\<rparr>],
       readings = [], users_seq = 2, readings_seq = 0\<rparr>, Some 2)
   \<and> user_ids (db (run (init_app empty_db)
         [Add_user (Some ''Alice'') None, Add_user (Some ''alice'') None])) = [1, 2]"
  by (simp add: add_user_def empty_db_def user_ids_def handler_defs)

subsection \<open>Saving a reading\<close>

lemma calculate_action_result:
  assumes "calculate_action s = (s1, Result b c)"
  shows "\<exists>w h. weight_var s = Some w \<and> height_var s = Some h
           \<and> calculate_bmi w h (unit_mode s) = Inr b \<and> c = bmi_category b
           \<and> s1 = s\<lparr>last_calculation := Some (b, c)\<rparr>"
proof -
  obtain w h m where v: "validate_inputs s = Inr (w, h, m)"
    using assms by (auto simp: calculate_action_def split: sum.splits)
  have wv: "weight_var s = Some w" and hv: "height_var s = Some h" and m: "m = unit_mode s"
    using v
    by (auto simp: validate_inputs_def parse_float_def Let_def split: if_splits option.splits sum.splits)
  obtain b' where cb: "calculate_bmi w h m = Inr b'"
    using assms v by (auto simp: calculate_action_def split: sum.splits)
  have "b' = b" "c = bmi_category b" "s1 = s\<lparr>last_calculation := Some (b, c)\<rparr>"
    using assms v cb by (auto simp: calculate_action_def show_result_def)
  with wv hv m cb show ?thesis by auto
qed

text \<open>
  Claim C1, as amended. \<open>save_reading\<close> stores the bmi and the category that its caller
  passes, in a new row with the next id; it computes neither. The caller \<open>save_action\<close>
  passes the pair that the last \<open>calculate_action\<close> left: when a reading is saved right
  after its calculation, the stored bmi is \<open>calculate_bmi\<close> of the stored weight, height and
  unit, and the stored category is \<open>bmi_category\<close> of the stored bmi.
\<close>

theorem save_reading_stores_arguments:
  "(save_reading d ts (Some u) w h m b c n = Inr (d', i) \<longrightarrow>
      i = readings_seq d + 1
      \<and> readings d' = readings d @
           [\<lparr>r_id = i, r_user_id = u, r_timestamp = ts, r_weight = w, r_height = h,
             r_unit = m, r_bmi = b, r_category = c, r_notes = n\<rparr>])
   \<and> (calculate_action s = (s1, Result bmi category) \<and> save_action s1 now = (s2, Saved rid) \<longrightarrow>
        (let r = last (readings (db s2))
         in readings (db s2) = readings (db s) @ [r]
            \<and> r_id r = rid \<and> r_bmi r = bmi \<and> r_category r = category
            \<and> calculate_bmi (r_weight r) (r_height r) (r_unit r) = Inr (r_bmi r)
            \<and> r_category r = bmi_category (r_bmi r)))"
proof -
  have a: "i = readings_seq d + 1
      \<and> readings d' = readings d @
           [\<lparr>r_id = i, r_user_id = u, r_timestamp = ts, r_weight = w, r_height = h,
             r_unit = m, r_bmi = b, r_category = c, r_notes = n\<rparr>]"
    if "save_reading d ts (Some u) w h m b c n = Inr (d', i)"
    using that by (auto simp: save_reading_def Let_def)
  have b: "let r = last (readings (db s2))
         in readings (db s2) = readings (db s) @ [r]
            \<and> r_id r = rid \<and> r_bmi r = bmi \<and> r_category r = category
            \<and> calculate_bmi (r_weight r) (r_height r) (r_unit r) = Inr (r_bmi r)
            \<and> r_category r = bmi_category (r_bmi r)"
    if "calculate_action s = (s1, Result bmi category) \<and> save_action s1 now = (s2, Saved rid)"
  proof -
    from that obtain w h where wv: "weight_var s = Some w" and hv: "height_var s = Some h"
      and cb: "calculate_bmi w h (unit_mode s) = Inr bmi" and c: "category = bmi_category bmi"
      and s1: "s1 = s\<lparr>last_calculation := Some (bmi, category)\<rparr>"
      using calculate_action_result by blast
    from that have sv: "save_action s1 now = (s2, Saved rid)" by simp
    show ?thesis
      using sv wv hv cb c
      by (auto simp: s1 save_action_def save_reading_def Let_def split: option.splits)
  qed
  show ?thesis
    using a b by blast
qed

theorem save_reading_stores_arguments_witness:
  "save_reading empty_db ''2024-01-01T12:00:00.000001'' (Some 1) 70 175 ''metric'' 0 ''Obese'' None
     = Inr (\<lparr>users = [],
              readings = [\<lparr>r_id = 1, r_user_id = 1, r_timestamp = ''2024-01-01T12:00:00.000001'',
                           r_weight = 70, r_height = 175, r_unit = ''metric'', r_bmi = 0,
                           r_category = ''Obese'', r_notes = None\<rparr>],
              users_seq = 0, readings_seq = 1\<rparr>, 1)
   \<and> calculate_action entered
       = (entered\<lparr>last_calculation := Some (2286 / 100, ''Normal'')\<rparr>, Result (2286 / 100) ''Normal'')
   \<and> snd (save_action (entered\<lparr>last_calculation := Some (2286 / 100, ''Normal'')\<rparr>)
            ''2024-01-01T12:00:00.000001'') = Saved 1
   \<and> readings (db (fst (save_action (entered\<lparr>last_calculation := Some (2286 / 100, ''Normal'')\<rparr>)
                           ''2024-01-01T12:00:00.000001'')))
       = [saved_reading 1 ''2024-01-01T12:00:00.000001'']
   \<and> calculate_bmi 70 175 ''metric'' = Inr (2286 / 100)"
proof -
  let ?ts = "''2024-01-01T12:00:00.000001''"
  let ?s1 = "entered\<lparr>last_calculation := Some (2286 / 100, ''Normal'')\<rparr>"
  let ?s2 = "fst (save_action ?s1 ?ts)"
  let ?d' = "\<lparr>users = [],
              readings = [\<lparr>r_id = 1, r_user_id = 1, r_timestamp = ?ts,
                           r_weight = 70, r_height = 175, r_unit = ''metric'', r_bmi = 0,
                           r_category = ''Obese'', r_notes = None\<rparr>],
              users_seq = 0, readings_seq = 1\<rparr>"
  have h1: "save_reading empty_db ?ts (Some 1) 70 175 ''metric'' 0 ''Obese'' None = Inr (?d', 1)"
    by (simp add: save_reading_def empty_db_def)
  have h2: "calculate_action entered = (?s1, Result (2286 / 100) ''Normal'')"
    by (simp add: handler_defs)
  have h3: "snd (save_action ?s1 ?ts) = Saved 1"
    by (simp add: handler_defs)
  have h4: "save_action ?s1 ?ts = (?s2, Saved 1)"
    using h3 by (simp add: prod_eq_iff)
  have rd: "readings (db ?s2) = [saved_reading 1 ?ts]"
    by (simp add: handler_defs saved_reading_def)
  note t = save_reading_stores_arguments [where d = empty_db and d' = ?d' and i = 1 and b = 0
      and s = entered and ?s1.0 = ?s1 and ?s2.0 = ?s2 and rid = 1, THEN conjunct2, rule_format,
      OF conjI [OF h2 h4]]
  have "calculate_bmi (r_weight (last (readings (db ?s2)))) (r_height (last (readings (db ?s2))))
          (r_unit (last (readings (db ?s2)))) = Inr (r_bmi (last (readings (db ?s2))))"
    using t by (simp only: Let_def)
  then have cb: "calculate_bmi 70 175 ''metric'' = Inr (2286 / 100)"
    unfolding rd by (simp add: saved_reading_def)
  show ?thesis
    by (intro conjI h1 h2 h3 rd cb)
qed

text \<open>
  The claim as the specification states it fails: \<open>save_reading\<close> stores the bmi 0 and the
  category \<^verbatim>\<open>'Obese'\<close> for 70 kg and 175 cm when its caller passes them, and a
  reading saved after the weight entry changed from 70 to 100 keeps the bmi 22.86 of the
  calculation, where \<open>calculate_bmi\<close> of the stored values is 32.65.
\<close>

theorem save_reading_caller_bmi_counterexample:
  "save_reading empty_db ''2024-01-01T12:00:00.000001'' (Some 1) 70 175 ''metric'' 0 ''Obese'' None
     = Inr (\<lparr>users = [],
              readings = [\<lparr>r_id = 1, r_user_id = 1, r_timestamp = ''2024-01-01T12:00:00.000001'',
                           r_weight = 70, r_height = 175, r_unit = ''metric'', r_bmi = 0,
                           r_category = ''Obese'', r_notes = None\<rparr>],
              users_seq = 0, readings_seq = 1\<rparr>, 1)
   \<and> calculate_bmi 70 175 ''metric'' = Inr (2286 / 100)
   \<and> readings (db (stale_save ''2024-01-01T12:00:00.000001''))
       = [\<lparr>r_id = 1, r_user_id = 1, r_timestamp = ''2024-01-01T12:00:00.000001'',
            r_weight = 100, r_height = 175, r_unit = ''metric'', r_bmi = 2286 / 100,
            r_category = ''Normal'', r_notes = None\<rparr>]
   \<and> calculate_bmi 100 175 ''metric'' = Inr (3265 / 100)
   \<and> bmi_category (3265 / 100) = ''Obese''"
  by (simp add: stale_save_def handler_defs)

subsection \<open>Deleting a user\<close>

text \<open>
  Claim C5, as amended. \<open>delete_user\<close> acts on the selected user: once confirmed, it
  removes the row of the user and every reading with that \<^verbatim>\<open>user_id\<close> in one step
  (both statements before the one commit), leaves no reading of that user behind, clears
  the selection and returns nothing; when the question is answered with no it changes
  nothing; with no user selected it warns and changes nothing. From a well-formed state
  with no orphaned reading, every state that the handlers of the window reach has no
  orphaned reading; the state on an empty database is such a state.
\<close>

theorem delete_user_cascade:
  "(selected_user_id s = Some i \<and> i \<noteq> 0 \<longrightarrow>
      users (db (fst (delete_user s True))) = filter (\<lambda>u. u_id u \<noteq> i) (users (db s))
      \<and> readings (db (fst (delete_user s True)))
          = filter (\<lambda>r. r_user_id r \<noteq> i) (readings (db s))
      \<and> i \<notin> set (user_ids (db (fst (delete_user s True))))
      \<and> readings_of (db (fst (delete_user s True))) i = []
      \<and> selected_user_id (fst (delete_user s True)) = None
      \<and> snd (delete_user s True) = Silent
      \<and> delete_user s False = (s, Silent))
   \<and> (no_selection s \<longrightarrow> delete_user s yes = (s, Showwarning ''Delete'' ''Select a user first''))
   \<and> (app_inv s \<longrightarrow> app_inv (run s acts) \<and> orphans (db (run s acts)) = [])
   \<and> app_inv (init_app empty_db)"
proof -
  have a: "users (db (fst (delete_user s True))) = filter (\<lambda>u. u_id u \<noteq> i) (users (db s))
      \<and> readings (db (fst (delete_user s True)))
          = filter (\<lambda>r. r_user_id r \<noteq> i) (readings (db s))
      \<and> i \<notin> set (user_ids (db (fst (delete_user s True))))
      \<and> readings_of (db (fst (delete_user s True))) i = []
      \<and> selected_user_id (fst (delete_user s True)) = None
      \<and> snd (delete_user s True) = Silent
      \<and> delete_user s False = (s, Silent)"
    if "selected_user_id s = Some i \<and> i \<noteq> 0"
    using that by (auto simp: delete_user_def Let_def user_ids_def readings_of_def)
  have b: "delete_user s yes = (s, Showwarning ''Delete'' ''Select a user first'')"
    if "no_selection s"
    using that by (auto simp: delete_user_def no_selection_def split: option.splits)
  have c: "app_inv (run s acts) \<and> orphans (db (run s acts)) = []" if "app_inv s"
  proof -
    have "app_inv (run s acts)" using that by (rule run_inv)
    then show ?thesis by (simp add: app_inv_def)
  qed
  have e: "app_inv (init_app empty_db)"
    by (intro app_inv_init wf_empty_db)
  show ?thesis
    using a b c e by blast
qed

text \<open>
  A user with two readings is deleted; and a run in which a save is tried after the
  deletion, with no user selected.
\<close>

theorem delete_user_cascade_witness:
  "selected_user_id (two_saves ''2024-01-01T12:00:00.000001'' ''2024-01-02T12:00:00.000001'') = Some 1
   \<and> length (readings (db (two_saves ''2024-01-01T12:00:00.000001'' ''2024-01-02T12:00:00.000001''))) = 2
   \<and> db (fst (delete_user
         (two_saves ''2024-01-01T12:00:00.000001'' ''2024-01-02T12:00:00.000001'') True))
       = \<lparr>users = [], readings = [], users_seq = 1, readings_seq = 2\<rparr>
   \<and> snd (delete_user
         (two_saves ''2024-01-01T12:00:00.000001'' ''2024-01-02T12:00:00.000001'') True) = Silent
   \<and> no_selection (init_app empty_db)
   \<and> delete_user (init_app empty_db) True
       = (init_app empty_db, Showwarning ''Delete'' ''Select a user first'')
   \<and> app_inv (init_app empty_db)
   \<and> orphans (db (run (init_app empty_db)
        [Add_user (Some ''Alice'') None, Select_user (Some ''Alice''), Set_weight (Some 70),
         Set_height (Some 175), Calculate, Save ''2024-01-01T12:00:00.000001'',
         Delete_user True, Save ''2024-01-02T12:00:00.000001''])) = []"
proof -
  let ?s = "two_saves ''2024-01-01T12:00:00.000001'' ''2024-01-02T12:00:00.000001''"
  let ?acts = "[Add_user (Some ''Alice'') None, Select_user (Some ''Alice''), Set_weight (Some 70),
         Set_height (Some 175), Calculate, Save ''2024-01-01T12:00:00.000001'',
         Delete_user True, Save ''2024-01-02T12:00:00.000001'']"
  have sel: "selected_user_id ?s = Some 1 \<and> (1::int) \<noteq> 0"
    by (simp add: two_saves_selected)
  have len: "length (readings (db ?s)) = 2"
    by (simp add: two_saves_db)
  note t = delete_user_cascade [of ?s 1 True ?acts]
  note t0 = delete_user_cascade [of "init_app empty_db" 1 True ?acts]
  have ns: "no_selection (init_app empty_db)"
    by (simp add: no_selection_def init_app_def refresh_user_list_def)
  from t sel have u: "users (db (fst (delete_user ?s True))) = []"
    and r: "readings (db (fst (delete_user ?s True))) = []"
    and f: "snd (delete_user ?s True) = Silent"
    by (simp_all add: two_saves_db saved_reading_def)
  have sq: "users_seq (db (fst (delete_user ?s True))) = 1"
    "readings_seq (db (fst (delete_user ?s True))) = 2"
    by (simp_all add: delete_user_def two_saves_selected two_saves_db Let_def)
  have dbe: "db (fst (delete_user ?s True))
       = \<lparr>users = [], readings = [], users_seq = 1, readings_seq = 2\<rparr>"
    using u r sq by (cases "db (fst (delete_user ?s True))") simp
  from t0 ns have w: "delete_user (init_app empty_db) True
       = (init_app empty_db, Showwarning ''Delete'' ''Select a user first'')"
    by blast
  from t0 have inv: "app_inv (init_app empty_db)"
    by blast
  with t0 have orph: "orphans (db (run (init_app empty_db) ?acts)) = []"
    by blast
  show ?thesis
    using sel len dbe f ns w inv orph by (intro conjI) simp_all
qed

text \<open>
  The claim as the specification states it fails: with no user to delete the handler
  shows a warning, it returns no count when it has deleted two readings, and
  \<open>save_reading\<close>, called with the id of no user, inserts a reading that is an orphan.
\<close>

theorem delete_user_counterexample:
  "delete_user (init_app empty_db) True
     = (init_app empty_db, Showwarning ''Delete'' ''Select a user first'')
   \<and> length (readings (db (two_saves ''2024-01-01T12:00:00.000001'' ''2024-01-02T12:00:00.000001''))) = 2
   \<and> snd (delete_user
         (two_saves ''2024-01-01T12:00:00.000001'' ''2024-01-02T12:00:00.000001'') True) = Silent
   \<and> save_reading empty_db ''2024-01-01T12:00:00.000001'' (Some 999) 70 175 ''metric''
         (2286 / 100) ''Normal'' None
       = Inr (\<lparr>users = [],
                readings = [\<lparr>r_id = 1, r_user_id = 999,
                             r_timestamp = ''2024-01-01T12:00:00.000001'', r_weight = 70,
                             r_height = 175, r_unit = ''metric'', r_bmi = 2286 / 100,
                             r_category = ''Normal'', r_notes = None\<rparr>],
                users_seq = 0, readings_seq = 1\<rparr>, 1)
   \<and> orphans \<lparr>users = [],
                readings = [\<lparr>r_id = 1, r_user_id = 999,
                             r_timestamp = ''2024-01-01T12:00:00.000001'', r_weight = 70,
                             r_height = 175, r_unit = ''metric'', r_bmi = 2286 / 100,
                             r_category = ''Normal'', r_notes = None\<rparr>],
                users_seq = 0, readings_seq = 1\<rparr>
       = [\<lparr>r_id = 1, r_user_id = 999,
                             r_timestamp = ''2024-01-01T12:00:00.000001'', r_weight = 70,
                             r_height = 175, r_unit = ''metric'', r_bmi = 2286 / 100,
                             r_category = ''Normal'', r_notes = None\<rparr>]"
  by (simp add: delete_user_def init_app_def refresh_user_list_def two_saves_db
      two_saves_selected save_reading_def empty_db_def orphans_def user_ids_def Let_def)

end
